theory Spec2Isabelle
  imports Complex_Main "HOL-Library.Multiset"
begin

section \<open>The budget ledger of Budget\_tracker1.py\<close>

text \<open>
  The class \<open>BudgetTracker\<close> holds an income total, a list of expense dictionaries and a
  list of category labels. Amounts are Python numbers; they are modelled as exact
  rationals (\<open>rat\<close>), so the literal \<open>0.8\<close> is the rational \<open>4/5\<close> and no rounding
  takes place. The capture time \<open>datetime.datetime.now()\<close> is an argument of
  \<open>add_expense\<close> (a clock reading, as a natural number).
\<close>

subsection \<open>Data\<close>

text \<open>An expense is the dictionary \<open>{"amount": .., "category": .., "date": ..}\<close>.\<close>

record expense =
  amount :: rat
  category :: string
  date :: nat

record BudgetTracker =
  income :: rat
  expenses :: "expense list"
  categories :: "string list"

datatype py_error = KeyError string

text \<open>
  A Python \<open>dict\<close> keeps its keys in insertion order: an association list without
  repeated keys. Storing under a key that is present replaces the value in place;
  storing under a new key appends the entry. Reading a key that is absent raises.
\<close>

type_synonym ('k, 'v) dict = "('k \<times> 'v) list"

fun dict_set :: "('k, 'v) dict \<Rightarrow> 'k \<Rightarrow> 'v \<Rightarrow> ('k, 'v) dict" where
  "dict_set [] k v = [(k, v)]"
| "dict_set ((k', v') # d) k v =
     (if k' = k then (k', v) # d else (k', v') # dict_set d k v)"

fun dict_get :: "(string, 'v) dict \<Rightarrow> string \<Rightarrow> py_error + 'v" where
  "dict_get [] k = Inl (KeyError k)"
| "dict_get ((k', v') # d) k = (if k' = k then Inr v' else dict_get d k)"

subsection \<open>Construction and mutation\<close>

definition init :: BudgetTracker where
  "init = \<lparr>income = 0, expenses = [],
            categories = [''Rent'', ''Food'', ''Entertainment'', ''Transportation'',
                          ''Miscellaneous'']\<rparr>"

definition add_income :: "BudgetTracker \<Rightarrow> rat \<Rightarrow> BudgetTracker" where
  "add_income s a = s\<lparr>income := income s + a\<rparr>"

text \<open>\<open>add_expense\<close> returns the boolean result together with the tracker afterwards.\<close>

definition add_expense :: "nat \<Rightarrow> BudgetTracker \<Rightarrow> rat \<Rightarrow> string \<Rightarrow> bool \<times> BudgetTracker" where
  "add_expense now s amt cat =
     (if cat \<notin> set (categories s) then (False, s)
      else (True, s\<lparr>expenses := expenses s @ [\<lparr>amount = amt, category = cat, date = now\<rparr>]\<rparr>))"

subsection \<open>Queries\<close>

definition view_expenses :: "BudgetTracker \<Rightarrow> expense list" where
  "view_expenses s = expenses s"



text \<open>The dictionary comprehension \<open>{category: 0 for category in self.categories}\<close>.\<close>

definition zero_spending :: "string list \<Rightarrow> (string, rat) dict" where
  "zero_spending cs = foldl (\<lambda>d c. dict_set d c 0) [] cs"

text \<open>
  The loop body \<open>spending_by_category[expense['category']] += expense['amount']\<close> reads
  the entry first, which raises \<open>KeyError\<close> when the category is not a key.
\<close>

fun accumulate_spending :: "(string, rat) dict \<Rightarrow> expense list \<Rightarrow> py_error + (string, rat) dict" where
  "accumulate_spending d [] = Inr d"
| "accumulate_spending d (e # es) =
     (case dict_get d (category e) of
        Inl err \<Rightarrow> Inl err
      | Inr v \<Rightarrow> accumulate_spending (dict_set d (category e) (v + amount e)) es)"

definition view_spending_by_category :: "BudgetTracker \<Rightarrow> py_error + (string, rat) dict" where
  "view_spending_by_category s = accumulate_spending (zero_spending (categories s)) (expenses s)"





subsection \<open>Sequences of calls\<close>

text \<open>
  The public operations of the class. Only \<open>add_income\<close> and \<open>add_expense\<close> assign to an
  attribute of the tracker; the five queries leave it as it is.
\<close>

datatype ledger_op =
    AddIncome rat
  | AddExpense rat string nat
  | ViewExpenses
  | GetTotalExpenses
  | GetRemainingBudget
  | ViewSpendingByCategory
  | SpendingInsights

fun apply_op :: "BudgetTracker \<Rightarrow> ledger_op \<Rightarrow> BudgetTracker" where
  "apply_op s (AddIncome a) = add_income s a"
| "apply_op s (AddExpense amt cat now) = snd (add_expense now s amt cat)"
| "apply_op s ViewExpenses = s"
| "apply_op s GetTotalExpenses = s"
| "apply_op s GetRemainingBudget = s"
| "apply_op s ViewSpendingByCategory = s"
| "apply_op s SpendingInsights = s"

definition run :: "ledger_op list \<Rightarrow> BudgetTracker \<Rightarrow> BudgetTracker" where
  "run ops s = foldl apply_op s ops"


subsection \<open>Reachable trackers\<close>

text \<open>
  What every tracker built by the constructor and the public operations satisfies: the
  category labels are pairwise different and every recorded expense carries one of them.
\<close>

definition ledger_inv :: "BudgetTracker \<Rightarrow> bool" where
  "ledger_inv s \<longleftrightarrow>
     distinct (categories s) \<and> (\<forall>e \<in> set (expenses s). category e \<in> set (categories s))"

text \<open>The sum of the amounts of the expenses recorded under one category.\<close>

definition spent_in :: "expense list \<Rightarrow> string \<Rightarrow> rat" where
  "spent_in es c = sum_list (map amount (filter (\<lambda>e. category e = c) es))"

definition sample_ops :: "ledger_op list" where
  "sample_ops = [AddIncome 1000, AddExpense 500 ''Transportation'' 1,
                 AddExpense 100 ''Misc-invalid-category'' 2, AddExpense 20 ''Food'' 3,
                 SpendingInsights, AddExpense 30 ''Transportation'' 4]"

subsection \<open>The expense list as an object\<close>

text \<open>
  In Python the attribute \<open>self.expenses\<close> holds a reference to a list object, \<open>append\<close>
  changes that object in place, and \<open>view_expenses\<close> returns the attribute, that is, the
  reference. To speak about what a caller can do with the returned value, the list
  objects live in a store (a list of lists, a reference being an index into it), and the
  tracker object holds the reference of its expense list. \<open>tracker_of\<close> reads a tracker
  object back into the record used above.
\<close>

type_synonym ref = nat
type_synonym store = "expense list list"

record tracker_obj =
  obj_income :: rat
  obj_expenses :: ref
  obj_categories :: "string list"

text \<open>The constructor allocates a new, empty list object for the expenses.\<close>

definition new_tracker :: "store \<Rightarrow> store \<times> tracker_obj" where
  "new_tracker h = (h @ [[]],
     \<lparr>obj_income = 0, obj_expenses = length h,
      obj_categories = [''Rent'', ''Food'', ''Entertainment'', ''Transportation'',
                        ''Miscellaneous'']\<rparr>)"

text \<open>\<open>lst.append(e)\<close> and reading \<open>lst\<close>, for a reference \<open>lst\<close> held by anyone.\<close>

definition list_append :: "store \<Rightarrow> ref \<Rightarrow> expense \<Rightarrow> store" where
  "list_append h r e = (if r < length h then h[r := h ! r @ [e]] else h)"

definition list_read :: "store \<Rightarrow> ref \<Rightarrow> expense list option" where
  "list_read h r = (if r < length h then Some (h ! r) else None)"

definition add_expense_obj :: "nat \<Rightarrow> store \<Rightarrow> tracker_obj \<Rightarrow> rat \<Rightarrow> string \<Rightarrow> bool \<times> store" where
  "add_expense_obj now h t amt cat =
     (if cat \<notin> set (obj_categories t) then (False, h)
      else (True, list_append h (obj_expenses t) \<lparr>amount = amt, category = cat, date = now\<rparr>))"

definition view_expenses_obj :: "tracker_obj \<Rightarrow> ref" where
  "view_expenses_obj t = obj_expenses t"

definition tracker_of :: "store \<Rightarrow> tracker_obj \<Rightarrow> BudgetTracker option" where
  "tracker_of h t =
     (case list_read h (obj_expenses t) of
        None \<Rightarrow> None
      | Some es \<Rightarrow> Some \<lparr>income = obj_income t, expenses = es, categories = obj_categories t\<rparr>)"

text \<open>An entry that \<open>add_expense\<close> would refuse: its category is not a category.\<close>

definition bogus :: expense where
  "bogus = \<lparr>amount = - 1, category = ''Bogus'', date = 0\<rparr>"

section \<open>Properties\<close>

subsection \<open>Totals\<close>



subsection \<open>Spending insights\<close>







subsection \<open>Recording an expense\<close>



text \<open>
  C4. When the category is not one of the tracker's categories, \<open>add_expense\<close> returns
  \<open>False\<close> and the tracker afterwards is the tracker before: same expenses, same income,
  same categories.
\<close>

theorem add_expense_invalid:
  "cat \<notin> set (categories s) \<Longrightarrow>
   add_expense now s amt cat = (False, s)"
  by (simp add: add_expense_def)

theorem add_expense_invalid_witness:
  "''Misc-invalid-category'' \<notin> set (categories init) \<and>
   add_expense 3 init 100 ''Misc-invalid-category'' = (False, init)"
  using add_expense_invalid [of "''Misc-invalid-category''" init 3 100]
  by (simp add: init_def)

subsection \<open>Remaining budget\<close>


subsection \<open>Dictionaries built from the category list\<close>

lemma dict_set_fresh: "k \<notin> fst ` set d \<Longrightarrow> dict_set d k v = d @ [(k, v)]"
  by (induction d) auto

lemma foldl_dict_set_zero:
  "distinct (map fst d @ cs) \<Longrightarrow>
   foldl (\<lambda>d c. dict_set d c (0::rat)) d cs = d @ map (\<lambda>c. (c, 0)) cs"
proof (induction cs arbitrary: d)
  case Nil
  show ?case by simp
next
  case (Cons c cs)
  from Cons.prems have fresh: "c \<notin> fst ` set d" by auto
  from Cons.prems have "distinct (map fst (d @ [(c, 0::rat)]) @ cs)" by auto
  from Cons.IH [OF this] fresh show ?case by (simp add: dict_set_fresh)
qed

lemma zero_spending_distinct: "distinct cs \<Longrightarrow> zero_spending cs = map (\<lambda>c. (c, 0)) cs"
  using foldl_dict_set_zero [of "[]" cs] by (simp add: zero_spending_def)

lemma dict_get_tabulate:
  "dict_get (map (\<lambda>c. (c, f c)) cs) k = (if k \<in> set cs then Inr (f k) else Inl (KeyError k))"
  by (induction cs) auto

lemma dict_set_tabulate:
  "distinct cs \<Longrightarrow> k \<in> set cs \<Longrightarrow>
   dict_set (map (\<lambda>c. (c, f c)) cs) k v = map (\<lambda>c. (c, if c = k then v else f c)) cs"
  by (induction cs) auto

text \<open>The loop over the expenses adds to each entry what was spent in its category.\<close>

lemma accumulate_spending_tabulate:
  "distinct cs \<Longrightarrow> \<forall>e \<in> set es. category e \<in> set cs \<Longrightarrow>
   accumulate_spending (map (\<lambda>c. (c, f c)) cs) es = Inr (map (\<lambda>c. (c, f c + spent_in es c)) cs)"
proof (induction es arbitrary: f)
  case Nil
  show ?case by (simp add: spent_in_def)
next
  case (Cons e es)
  let ?g = "\<lambda>c. if c = category e then f (category e) + amount e else f c"
  from Cons.prems have mem: "category e \<in> set cs" and rest: "\<forall>e \<in> set es. category e \<in> set cs"
    by simp_all
  have "accumulate_spending (map (\<lambda>c. (c, f c)) cs) (e # es) =
        accumulate_spending (map (\<lambda>c. (c, ?g c)) cs) es"
    using mem Cons.prems(1) by (simp add: dict_get_tabulate dict_set_tabulate)
  also have "\<dots> = Inr (map (\<lambda>c. (c, ?g c + spent_in es c)) cs)"
    using Cons.IH [OF Cons.prems(1) rest] .
  also have "map (\<lambda>c. (c, ?g c + spent_in es c)) cs = map (\<lambda>c. (c, f c + spent_in (e # es) c)) cs"
    by (simp add: spent_in_def)
  finally show ?case .
qed

lemma view_spending_by_category_inv:
  "ledger_inv s \<Longrightarrow>
   view_spending_by_category s = Inr (map (\<lambda>c. (c, spent_in (expenses s) c)) (categories s))"
  using accumulate_spending_tabulate [of "categories s" "expenses s" "\<lambda>c. 0"]
  by (simp add: view_spending_by_category_def zero_spending_distinct ledger_inv_def)

subsection \<open>The invariant of reachable trackers\<close>

lemma ledger_inv_init: "ledger_inv init"
  by (simp add: ledger_inv_def init_def)

lemma ledger_inv_apply_op: "ledger_inv s \<Longrightarrow> ledger_inv (apply_op s op)"
  by (cases op) (auto simp: ledger_inv_def add_income_def add_expense_def)

lemma ledger_inv_foldl: "ledger_inv s \<Longrightarrow> ledger_inv (foldl apply_op s ops)"
  by (induction ops arbitrary: s) (simp_all add: ledger_inv_apply_op)

lemma ledger_inv_run: "ledger_inv (run ops init)"
  by (simp add: run_def ledger_inv_foldl ledger_inv_init)

lemma run_append: "run (xs @ ys) s = run ys (run xs s)"
  by (simp add: run_def)

lemma run_sample_ops:
  "run sample_ops init =
     \<lparr>income = 1000,
      expenses = [\<lparr>amount = 500, category = ''Transportation'', date = 1\<rparr>,
                  \<lparr>amount = 20, category = ''Food'', date = 3\<rparr>,
                  \<lparr>amount = 30, category = ''Transportation'', date = 4\<rparr>],
      categories = [''Rent'', ''Food'', ''Entertainment'', ''Transportation'', ''Miscellaneous'']\<rparr>"
  by (simp add: run_def sample_ops_def init_def add_income_def add_expense_def)

subsection \<open>Spending by category\<close>



subsection \<open>Income\<close>

lemma income_apply_op_query: "(\<forall>a. op \<noteq> AddIncome a) \<Longrightarrow> income (apply_op s op) = income s"
  by (cases op) (simp_all add: add_expense_def)

lemma income_apply_op_mono:
  "(\<forall>a. op = AddIncome a \<longrightarrow> 0 \<le> a) \<Longrightarrow> income s \<le> income (apply_op s op)"
  by (cases op) (simp_all add: add_income_def add_expense_def)

lemma income_run_mono:
  "(\<forall>a. AddIncome a \<in> set ops \<longrightarrow> 0 \<le> a) \<Longrightarrow> income s \<le> income (run ops s)"
proof (induction ops arbitrary: s)
  case Nil
  show ?case by (simp add: run_def)
next
  case (Cons op ops)
  have "income s \<le> income (apply_op s op)"
    using Cons.prems by (intro income_apply_op_mono) auto
  also have "\<dots> \<le> income (run ops (apply_op s op))"
    using Cons.prems by (intro Cons.IH) auto
  finally show ?case by (simp add: run_def)
qed


text \<open>
  C7, as stated: after any sequence of operations on a fresh tracker the income is
  non-negative and has never decreased. \<open>add_income\<close> adds whatever it is given: a
  negative amount makes the income negative, and lower than it was.
\<close>

theorem add_income_negative_counterexample:
  "income (run [AddIncome (- 5)] init) < 0 \<and>
   income (run [AddIncome 10, AddIncome (- 5)] init) < income (run [AddIncome 10] init)"
  by (simp add: run_def init_def add_income_def)

text \<open>
  C7, amended: for every sequence of operations on a fresh tracker in which every amount
  given to \<open>add_income\<close> is non-negative, the income is non-negative at the end and never
  decreases along the sequence; and an operation other than \<open>add_income\<close> leaves the
  income of any tracker as it was.
\<close>

theorem income_nonneg_monotone:
  assumes "\<forall>a. AddIncome a \<in> set ops \<longrightarrow> 0 \<le> a"
  shows "0 \<le> income (run ops init) \<and>
         (\<forall>i j. i \<le> j \<longrightarrow> income (run (take i ops) init) \<le> income (run (take j ops) init)) \<and>
         (\<forall>s op. (\<forall>a. op \<noteq> AddIncome a) \<longrightarrow> income (apply_op s op) = income s)"
proof (intro conjI allI impI)
  have "income init \<le> income (run ops init)" using assms by (rule income_run_mono)
  then show "0 \<le> income (run ops init)" by (simp add: init_def)
next
  fix i j :: nat
  assume "i \<le> j"
  then have split: "take j ops = take i ops @ drop i (take j ops)"
    by (metis append_take_drop_id min.absorb1 take_take)
  have "set (drop i (take j ops)) \<subseteq> set ops"
    by (meson set_drop_subset set_take_subset subset_trans)
  with assms have "\<forall>a. AddIncome a \<in> set (drop i (take j ops)) \<longrightarrow> 0 \<le> a" by blast
  then have "income (run (take i ops) init) \<le> income (run (drop i (take j ops)) (run (take i ops) init))"
    by (rule income_run_mono)
  then show "income (run (take i ops) init) \<le> income (run (take j ops) init)"
    by (metis split run_append)
next
  fix s op
  assume "\<forall>a. op \<noteq> AddIncome a"
  then show "income (apply_op s op) = income s" by (rule income_apply_op_query)
qed

theorem income_nonneg_monotone_witness:
  "0 \<le> income (run sample_ops init) \<and>
   income (run (take 0 sample_ops) init) \<le> income (run (take 1 sample_ops) init) \<and>
   income (apply_op init (AddExpense 50 ''Rent'' 0)) = income init"
proof -
  have h: "\<forall>a. AddIncome a \<in> set sample_ops \<longrightarrow> 0 \<le> a"
    by (simp add: sample_ops_def)
  note inst = income_nonneg_monotone [OF h]
  from inst have nonneg: "0 \<le> income (run sample_ops init)" by blast
  from inst have "(0::nat) \<le> 1 \<longrightarrow>
      income (run (take 0 sample_ops) init) \<le> income (run (take 1 sample_ops) init)"
    by blast
  then have mono: "income (run (take 0 sample_ops) init) \<le> income (run (take 1 sample_ops) init)"
    by simp
  from inst have "(\<forall>a. AddExpense 50 ''Rent'' 0 \<noteq> AddIncome a) \<longrightarrow>
      income (apply_op init (AddExpense 50 ''Rent'' 0)) = income init"
    by blast
  then have frame: "income (apply_op init (AddExpense 50 ''Rent'' 0)) = income init"
    by simp
  from nonneg mono frame show ?thesis by blast
qed



subsection \<open>The value returned by \<open>view_expenses\<close>\<close>

text \<open>The object-level operations agree with the record-level ones.\<close>

lemma tracker_of_new: "tracker_of (fst (new_tracker h)) (snd (new_tracker h)) = Some init"
  by (simp add: tracker_of_def new_tracker_def list_read_def init_def)

lemma tracker_of_add_expense:
  "tracker_of h t = Some s \<Longrightarrow>
   fst (add_expense_obj now h t amt cat) = fst (add_expense now s amt cat) \<and>
   tracker_of (snd (add_expense_obj now h t amt cat)) t = Some (snd (add_expense now s amt cat))"
  by (auto simp: tracker_of_def add_expense_obj_def add_expense_def list_read_def list_append_def
      split: if_splits)

text \<open>
  C9, as stated: a caller cannot change the tracker's expense list through the value
  returned by \<open>view_expenses\<close>. On a fresh tracker, appending an entry to the returned list
  changes the tracker: its expenses are then that entry, which \<open>add_expense\<close> would have
  refused.
\<close>

theorem view_expenses_alias_counterexample:
  "tracker_of (fst (new_tracker [])) (snd (new_tracker [])) = Some init \<and>
   tracker_of (list_append (fst (new_tracker [])) (view_expenses_obj (snd (new_tracker []))) bogus)
              (snd (new_tracker []))
     = Some (init\<lparr>expenses := [bogus]\<rparr>) \<and>
   init\<lparr>expenses := [bogus]\<rparr> \<noteq> init"
  by (simp add: tracker_of_def new_tracker_def list_read_def list_append_def view_expenses_obj_def
      init_def)

text \<open>
  C9, amended: \<open>view_expenses\<close> returns the full expense history in insertion order, and
  what it returns is the tracker's own list object, not a copy: reading the returned
  reference gives the tracker's expenses, and an append made through it is an append to
  the tracker's expenses.
\<close>

theorem view_expenses_alias:
  "tracker_of h t = Some s \<Longrightarrow>
   list_read h (view_expenses_obj t) = Some (view_expenses s) \<and>
   view_expenses_obj t = obj_expenses t \<and>
   tracker_of (list_append h (view_expenses_obj t) e) t = Some (s\<lparr>expenses := expenses s @ [e]\<rparr>)"
  by (auto simp: tracker_of_def list_read_def list_append_def view_expenses_obj_def view_expenses_def
      split: if_splits)

theorem view_expenses_alias_witness:
  "tracker_of (fst (new_tracker [])) (snd (new_tracker [])) = Some init \<and>
   list_read (fst (new_tracker [])) (view_expenses_obj (snd (new_tracker []))) = Some [] \<and>
   tracker_of (list_append (fst (new_tracker [])) (view_expenses_obj (snd (new_tracker []))) bogus)
              (snd (new_tracker [])) = Some (init\<lparr>expenses := [bogus]\<rparr>)"
  using view_expenses_alias [OF tracker_of_new, of "[]" bogus]
  by (simp add: tracker_of_new view_expenses_def view_expenses_obj_def init_def)

subsection \<open>No missing key\<close>

text \<open>
  C10. In every tracker reached from a fresh one by the public operations, the category
  of every recorded expense is one of the categories, and \<open>view_spending_by_category\<close>
  does not raise \<open>KeyError\<close>: it returns a dictionary.
\<close>

theorem categories_of_expenses_valid:
  "(\<forall>e \<in> set (expenses (run ops init)). category e \<in> set (categories (run ops init))) \<and>
   (\<forall>err. view_spending_by_category (run ops init) \<noteq> Inl err) \<and>
   (\<exists>d. view_spending_by_category (run ops init) = Inr d)"
  using ledger_inv_run [of ops] view_spending_by_category_inv [OF ledger_inv_run, of ops]
  by (simp add: ledger_inv_def)

theorem categories_of_expenses_valid_witness:
  "map category (expenses (run sample_ops init)) = [''Transportation'', ''Food'', ''Transportation''] \<and>
   categories (run sample_ops init) =
     [''Rent'', ''Food'', ''Entertainment'', ''Transportation'', ''Miscellaneous''] \<and>
   view_spending_by_category (run sample_ops init) =
     Inr [(''Rent'', 0), (''Food'', 20), (''Entertainment'', 0), (''Transportation'', 530),
          (''Miscellaneous'', 0)]"
  using categories_of_expenses_valid [of sample_ops]
  by (simp add: run_sample_ops view_spending_by_category_def zero_spending_def)

end
